theory Spec2Isabelle
  imports Complex_Main "HOL-Library.AList" "HOL-Library.Multiset"
begin

section \<open>Data model of \<^verbatim>\<open>rez.resolver\<close>\<close>

text \<open>
  The embedding follows \<^verbatim>\<open>src/rez/resolver.py\<close>. Python exceptions are values of
  \<open>pyerror\<close>; a function that can raise returns \<open>pyerror + 'a\<close> with \<open>Inl\<close> the
  exception. The memcache service is an explicit store that every operation
  takes and returns.
\<close>

datatype pyerror = TypeError | AssertionError

datatype ResolverStatus = pending | solved | failed | aborted

fun description :: "ResolverStatus \<Rightarrow> string" where
  "description pending = ''The resolve has not yet started.''"
| "description solved = ''The resolve has completed successfully.''"
| "description failed = ''The resolve is not possible.''"
| "description aborted = ''The resolve was stopped by the user (via callback).''"

datatype SolverStatus = solver_unsolved | solver_failed | solver_solved

text \<open>A \<^verbatim>\<open>Requirement\<close>: package name and version range; its \<^verbatim>\<open>str\<close> is external.\<close>

record requirement =
  req_name :: string
  req_range :: string

text \<open>Opaque values handed through by the resolver.\<close>

type_synonym variant_handle = "(string \<times> string) list"
type_synonym resource = string
type_synonym graph = "(string \<times> string) list"

text \<open>
  A variant state handle is any Python value, \<^verbatim>\<open>None\<close> included; \<open>None\<close> stands
  for Python's \<^verbatim>\<open>None\<close>.
\<close>

type_synonym state_handle = "int option"

record variant =
  variant_name :: string
  qualified_name :: string
  variant_resource :: resource

text \<open>
  The dictionary built by \<^verbatim>\<open>_solver_to_dict\<close>. \<open>sd_variant_handles\<close> is \<^verbatim>\<open>None\<close>
  unless the solve succeeded.
\<close>

record solver_dict =
  sd_status :: ResolverStatus
  sd_graph :: "graph option"
  sd_solve_time :: real
  sd_load_time :: real
  sd_failure_description :: "string option"
  sd_variant_handles :: "variant_handle list option"

text \<open>
  What the resolver reads from a \<^verbatim>\<open>Solver\<close> after its \<^verbatim>\<open>solve()\<close>;
  \<open>solver_resolved_packages\<close> holds the \<^verbatim>\<open>userdata\<close> of each resolved package.
\<close>

record solver =
  solver_status :: SolverStatus
  is_partial :: bool
  solver_graph :: "graph option"
  solver_solve_time :: real
  solver_load_time :: real
  abort_reason :: "string option"
  solver_failure_description :: "string option"
  solver_resolved_packages :: "variant_handle list"

text \<open>
  The collaborators of the resolver, as parameters: the two configuration
  settings, \<^verbatim>\<open>memcache_client.enabled\<close>, the packages layer, the repositories
  and the solver. \<open>run_solver d\<close> is the solver after \<^verbatim>\<open>Solver(max_depth=d, **kwargs).solve()\<close>,
  \<open>run_solver None\<close> the one built without \<^verbatim>\<open>max_depth\<close>.
\<close>

record environment =
  resolve_caching :: bool
  prune_failed_graph :: bool
  memcache_enabled :: bool
  requirement_str :: "requirement \<Rightarrow> string"
  repository_uid :: "string \<Rightarrow> string"
  get_variant :: "variant_handle \<Rightarrow> variant"
  get_last_release_time :: "string \<Rightarrow> string list \<Rightarrow> int"
  get_variant_state_handle :: "resource \<Rightarrow> state_handle"
  run_solver :: "int option \<Rightarrow> solver"

text \<open>
  The fields of a \<^verbatim>\<open>Resolver\<close>. \<open>status_r\<close>, \<open>resolved_packages_r\<close> and \<open>graph_r\<close> are
  the attributes \<^verbatim>\<open>status_\<close>, \<^verbatim>\<open>resolved_packages_\<close> and \<^verbatim>\<open>graph_\<close>. The callbacks and
  the output buffer are only passed on to the solver and are part of \<open>run_solver\<close>.
\<close>

record resolver =
  package_requests :: "requirement list"
  package_paths :: "string list"
  timestamp :: int
  building :: bool
  verbosity :: bool
  caching :: bool
  max_depth :: int
  start_depth :: int
  status_r :: ResolverStatus
  resolved_packages_r :: "variant list option"
  failure_description :: "string option"
  graph_r :: "graph option"
  from_cache :: bool
  solve_time :: real
  load_time :: real

text \<open>
  A memcache key is the tuple of \<^verbatim>\<open>_memcache_key\<close>: six fields, and the timestamp as
  a seventh when it is appended (\<open>Some t\<close>).
\<close>

type_synonym memcache_key =
  "string list \<times> string list \<times> bool \<times> bool \<times> int \<times> int \<times> int option"

type_synonym release_times = "(string \<times> int) list"
type_synonym variant_states = "(string \<times> state_handle) list"
type_synonym cache_entry = "solver_dict \<times> release_times \<times> variant_states"
type_synonym memcache = "memcache_key \<rightharpoonup> cache_entry"

section \<open>Construction\<close>

text \<open>\<^verbatim>\<open>Resolver.__init__\<close>: the assertion on the two depths, then the initial fields.\<close>

definition Resolver_init ::
  "requirement list \<Rightarrow> string list \<Rightarrow> int \<Rightarrow> bool \<Rightarrow> bool \<Rightarrow> int \<Rightarrow> int \<Rightarrow> bool
    \<Rightarrow> pyerror + resolver" where
  "Resolver_init requests paths ts bld verb maxd startd cach =
     (if maxd \<noteq> 0 \<and> startd \<noteq> 0 \<and> \<not> (maxd \<ge> startd) then Inl AssertionError
      else Inr \<lparr>package_requests = requests, package_paths = paths, timestamp = ts,
                building = bld, verbosity = verb, caching = cach,
                max_depth = maxd, start_depth = startd,
                status_r = pending, resolved_packages_r = None,
                failure_description = None, graph_r = None, from_cache = False,
                solve_time = 0, load_time = 0\<rparr>)"

section \<open>The cache key\<close>

definition memcache_key :: "environment \<Rightarrow> resolver \<Rightarrow> bool \<Rightarrow> memcache_key" where
  "memcache_key env r timestamped =
     (let request = map (requirement_str env) (package_requests r);
          repo_ids = map (repository_uid env) (package_paths r)
      in (request, repo_ids, building r, prune_failed_graph env, start_depth r, max_depth r,
          if timestamped \<and> timestamp r \<noteq> 0 then Some (timestamp r) else None))"

section \<open>Cache lookup\<close>

text \<open>\<^verbatim>\<open>d.get(k)\<close> on a dictionary of state handles: \<^verbatim>\<open>None\<close> when the key is absent.\<close>

definition dict_get :: "variant_states \<Rightarrow> string \<Rightarrow> state_handle" where
  "dict_get d k = (case map_of d k of None \<Rightarrow> None | Some v \<Rightarrow> v)"

text \<open>The loop of \<^verbatim>\<open>_packages_changed\<close> over the variant handles.\<close>

fun packages_changed_loop :: "environment \<Rightarrow> variant_states \<Rightarrow> variant_handle list \<Rightarrow> bool" where
  "packages_changed_loop env variant_states_dict [] = False"
| "packages_changed_loop env variant_states_dict (variant_handle # rest) =
     (let v = get_variant env variant_handle;
          old_state = dict_get variant_states_dict (variant_name v);
          new_state = get_variant_state_handle env (variant_resource v)
      in if old_state \<noteq> new_state then True
         else packages_changed_loop env variant_states_dict rest)"

text \<open>
  \<^verbatim>\<open>_packages_changed\<close>. \<^verbatim>\<open>solver_dict.get("variant_handles", [])\<close> is the stored value
  when the key is there, so a stored \<^verbatim>\<open>None\<close> is iterated and raises \<^verbatim>\<open>TypeError\<close>.
\<close>

definition packages_changed :: "environment \<Rightarrow> cache_entry \<Rightarrow> pyerror + bool" where
  "packages_changed env data =
     (case data of (solver_dict, _, variant_states_dict) \<Rightarrow>
        (case sd_variant_handles solver_dict of
           None \<Rightarrow> Inl TypeError
         | Some handles \<Rightarrow> Inr (packages_changed_loop env variant_states_dict handles)))"

fun releases_since_solve_loop :: "environment \<Rightarrow> resolver \<Rightarrow> release_times \<Rightarrow> bool" where
  "releases_since_solve_loop env r [] = False"
| "releases_since_solve_loop env r ((package_name, release_time) # rest) =
     (let time = get_last_release_time env package_name (package_paths r)
      in if time \<noteq> release_time then True else releases_since_solve_loop env r rest)"

definition releases_since_solve :: "environment \<Rightarrow> resolver \<Rightarrow> cache_entry \<Rightarrow> bool" where
  "releases_since_solve env r data =
     (case data of (_, release_times_dict, _) \<Rightarrow> releases_since_solve_loop env r release_times_dict)"

fun timestamp_is_earlier_loop :: "resolver \<Rightarrow> release_times \<Rightarrow> bool" where
  "timestamp_is_earlier_loop r [] = False"
| "timestamp_is_earlier_loop r ((package_name, release_time) # rest) =
     (if timestamp r < release_time then True else timestamp_is_earlier_loop r rest)"

definition timestamp_is_earlier :: "resolver \<Rightarrow> cache_entry \<Rightarrow> bool" where
  "timestamp_is_earlier r data =
     (case data of (_, release_times_dict, _) \<Rightarrow> timestamp_is_earlier_loop r release_times_dict)"

text \<open>\<^verbatim>\<open>_hit(data)\<close> returns the first component of the entry.\<close>

definition hit :: "cache_entry \<Rightarrow> solver_dict" where
  "hit data = (case data of (solver_dict, _, _) \<Rightarrow> solver_dict)"

text \<open>
  The second half of the timestamped branch of \<^verbatim>\<open>_get_cached_solve\<close> (lines 240 to
  247): the lookup of the timestamped key.
\<close>

definition timestamped_lookup ::
  "environment \<Rightarrow> resolver \<Rightarrow> memcache \<Rightarrow> (pyerror + solver_dict option) \<times> memcache" where
  "timestamped_lookup env r cache =
     (let key = memcache_key env r True in
      case cache key of
        None \<Rightarrow> (Inr None, cache)
      | Some data \<Rightarrow>
          (case packages_changed env data of
             Inl e \<Rightarrow> (Inl e, cache)
           | Inr True \<Rightarrow> (Inr None, cache(key := None))
           | Inr False \<Rightarrow> (Inr (Some (hit data)), cache)))"

text \<open>
  \<^verbatim>\<open>_get_cached_solve\<close>. The result is the exception raised, or the \<^verbatim>\<open>solver_dict\<close>
  returned (\<open>None\<close> for a miss), together with the cache after the deletions made.
  On line 238 the source calls \<^verbatim>\<open>_hit()\<close> without its argument, which raises
  \<^verbatim>\<open>TypeError\<close>.
\<close>

definition get_cached_solve ::
  "environment \<Rightarrow> resolver \<Rightarrow> memcache \<Rightarrow> (pyerror + solver_dict option) \<times> memcache" where
  "get_cached_solve env r cache =
     (if \<not> (resolve_caching env \<and> caching r \<and> memcache_enabled env) then (Inr None, cache)
      else
        let key = memcache_key env r False in
        if timestamp r \<noteq> 0 then
          (case cache key of
             None \<Rightarrow> timestamped_lookup env r cache
           | Some data \<Rightarrow>
               (case packages_changed env data of
                  Inl e \<Rightarrow> (Inl e, cache)
                | Inr True \<Rightarrow> timestamped_lookup env r (cache(key := None))
                | Inr False \<Rightarrow>
                    if releases_since_solve env r data
                    then timestamped_lookup env r (cache(key := None))
                    else if \<not> timestamp_is_earlier r data then (Inl TypeError, cache)
                    else timestamped_lookup env r cache))
        else
          (case cache key of
             None \<Rightarrow> (Inr None, cache)
           | Some data \<Rightarrow>
               (case packages_changed env data of
                  Inl e \<Rightarrow> (Inl e, cache)
                | Inr True \<Rightarrow> (Inr None, cache(key := None))
                | Inr False \<Rightarrow>
                    if releases_since_solve env r data then (Inr None, cache(key := None))
                    else (Inr (Some (hit data)), cache))))"

section \<open>Cache store\<close>

text \<open>
  The loop of \<^verbatim>\<open>_set_cached_solve\<close> over the resolved packages, on the triple
  \<^verbatim>\<open>(releases_since_solve, release_times_dict, variant_states_dict)\<close>; \<open>None\<close> is the
  early \<^verbatim>\<open>return\<close> at a release time of zero.
\<close>

fun store_loop ::
  "environment \<Rightarrow> resolver \<Rightarrow> variant list \<Rightarrow> bool \<times> release_times \<times> variant_states
    \<Rightarrow> (bool \<times> release_times \<times> variant_states) option" where
  "store_loop env r [] acc = Some acc"
| "store_loop env r (v # rest) (since, release_times_dict, variant_states_dict) =
     (let time = get_last_release_time env (variant_name v) (package_paths r)
      in if time = 0 then None
         else store_loop env r rest
                (if timestamp r \<noteq> 0 \<and> timestamp r < time then True else since,
                 AList.update (variant_name v) time release_times_dict,
                 AList.update (variant_name v)
                   (get_variant_state_handle env (variant_resource v)) variant_states_dict))"

text \<open>
  \<^verbatim>\<open>_set_cached_solve\<close>: the cache after the call, or the exception raised
  (iterating \<^verbatim>\<open>resolved_packages_\<close> when it is \<^verbatim>\<open>None\<close>).
\<close>

definition set_cached_solve ::
  "environment \<Rightarrow> resolver \<Rightarrow> solver_dict \<Rightarrow> memcache \<Rightarrow> pyerror + memcache" where
  "set_cached_solve env r solver_dict cache =
     (if \<not> (resolve_caching env \<and> caching r \<and> memcache_enabled env) then Inr cache
      else if status_r r \<noteq> solved then Inr cache
      else
        (case resolved_packages_r r of
           None \<Rightarrow> Inl TypeError
         | Some variants \<Rightarrow>
             (case store_loop env r variants (False, [], []) of
                None \<Rightarrow> Inr cache
              | Some (since, release_times_dict, variant_states_dict) \<Rightarrow>
                  let timestamped = (timestamp r \<noteq> 0 \<and> since);
                      key = memcache_key env r timestamped;
                      data = (solver_dict, release_times_dict, variant_states_dict)
                  in Inr (cache(key \<mapsto> data)))))"

section \<open>The solver driver\<close>

text \<open>The test that leaves the \<^verbatim>\<open>while True\<close> loop of \<^verbatim>\<open>_solve\<close> (lines 430 to 432).\<close>

definition loop_break :: "resolver \<Rightarrow> int \<Rightarrow> solver \<Rightarrow> bool" where
  "loop_break r depth s =
     (\<not> is_partial s \<or> solver_status s = solver_solved
      \<or> (max_depth r \<noteq> 0 \<and> depth \<ge> max_depth r))"

text \<open>The depth of the next round (lines 435 to 437).\<close>

definition next_depth :: "resolver \<Rightarrow> int \<Rightarrow> int" where
  "next_depth r depth =
     (let d = depth * 2 in if max_depth r \<noteq> 0 then min d (max_depth r) else d)"

text \<open>
  The loop itself, from a given depth. It returns the last solver and the depths
  of the solver invocations made, in order, after those in \<open>depths\<close>; the result is
  \<open>None\<close> when the loop never ends.
\<close>

partial_function (option) solve_loop ::
  "environment \<Rightarrow> resolver \<Rightarrow> int \<Rightarrow> int list \<Rightarrow> (solver \<times> int list) option" where
  "solve_loop env r depth depths =
     (if loop_break r depth (run_solver env (Some depth))
      then Some (run_solver env (Some depth), depths @ [depth])
      else solve_loop env r (next_depth r depth) (depths @ [depth]))"

declare solve_loop.simps [code]

text \<open>\<^verbatim>\<open>_solve\<close>: the three modes, chosen by \<^verbatim>\<open>start_depth\<close> and \<^verbatim>\<open>max_depth\<close>.\<close>

definition solve_internal :: "environment \<Rightarrow> resolver \<Rightarrow> (solver \<times> int list) option" where
  "solve_internal env r =
     (if start_depth r \<noteq> 0 then solve_loop env r (start_depth r) []
      else if max_depth r \<noteq> 0 then Some (run_solver env (Some (max_depth r)), [max_depth r])
      else Some (run_solver env None, []))"

section \<open>Results\<close>

text \<open>\<^verbatim>\<open>_solver_to_dict\<close>.\<close>

definition solver_to_dict :: "solver \<Rightarrow> solver_dict" where
  "solver_to_dict s =
     (case solver_status s of
        solver_unsolved \<Rightarrow>
          \<lparr>sd_status = aborted, sd_graph = solver_graph s,
           sd_solve_time = solver_solve_time s, sd_load_time = solver_load_time s,
           sd_failure_description = abort_reason s, sd_variant_handles = None\<rparr>
      | solver_failed \<Rightarrow>
          \<lparr>sd_status = failed, sd_graph = solver_graph s,
           sd_solve_time = solver_solve_time s, sd_load_time = solver_load_time s,
           sd_failure_description = solver_failure_description s, sd_variant_handles = None\<rparr>
      | solver_solved \<Rightarrow>
          \<lparr>sd_status = solved, sd_graph = solver_graph s,
           sd_solve_time = solver_solve_time s, sd_load_time = solver_load_time s,
           sd_failure_description = None,
           sd_variant_handles = Some (solver_resolved_packages s)\<rparr>)"

text \<open>
  \<^verbatim>\<open>_set_result\<close>. When the status is \<^verbatim>\<open>solved\<close> the variant handles are iterated,
  which raises \<^verbatim>\<open>TypeError\<close> for a stored \<^verbatim>\<open>None\<close>.
\<close>

definition set_result :: "environment \<Rightarrow> resolver \<Rightarrow> solver_dict \<Rightarrow> pyerror + resolver" where
  "set_result env r solver_dict =
     (let r1 = r\<lparr>status_r := sd_status solver_dict, graph_r := sd_graph solver_dict,
                  solve_time := sd_solve_time solver_dict, load_time := sd_load_time solver_dict,
                  failure_description := sd_failure_description solver_dict,
                  resolved_packages_r := None\<rparr>
      in if sd_status solver_dict = solved then
           (case sd_variant_handles solver_dict of
              None \<Rightarrow> Inl TypeError
            | Some handles \<Rightarrow> Inr (r1\<lparr>resolved_packages_r := Some (map (get_variant env) handles)\<rparr>))
         else Inr r1)"

text \<open>
  \<^verbatim>\<open>solve\<close>: the resolver after the call, or the exception raised, with the cache
  after it; \<open>None\<close> when the solver loop never ends. A dictionary returned by the
  lookup has six keys, so it is true as a condition.
\<close>

definition solve ::
  "environment \<Rightarrow> resolver \<Rightarrow> memcache \<Rightarrow> ((pyerror + resolver) \<times> memcache) option" where
  "solve env r cache =
     (case get_cached_solve env r cache of
        (Inl e, cache1) \<Rightarrow> Some (Inl e, cache1)
      | (Inr (Some solver_dict), cache1) \<Rightarrow>
          Some (set_result env (r\<lparr>from_cache := True\<rparr>) solver_dict, cache1)
      | (Inr None, cache1) \<Rightarrow>
          (case solve_internal env (r\<lparr>from_cache := False\<rparr>) of
             None \<Rightarrow> None
           | Some (s, depths) \<Rightarrow>
               let solver_dict = solver_to_dict s in
               (case set_result env (r\<lparr>from_cache := False\<rparr>) solver_dict of
                  Inl e \<Rightarrow> Some (Inl e, cache1)
                | Inr r1 \<Rightarrow>
                    (case set_cached_solve env r1 solver_dict cache1 of
                       Inl e \<Rightarrow> Some (Inl e, cache1)
                     | Inr cache2 \<Rightarrow> Some (Inr r1, cache2)))))"

section \<open>Concrete resolvers\<close>

text \<open>
  The requests \<^verbatim>\<open>[A, B-2+]\<close> over one repository in which \<^verbatim>\<open>A\<close> was last released at
  time 100 and \<^verbatim>\<open>B\<close> at time 200; the solver resolves them to \<^verbatim>\<open>A-1\<close> and \<^verbatim>\<open>B-2\<close>.
\<close>

definition example_solver :: solver where
  "example_solver =
     \<lparr>solver_status = solver_solved, is_partial = False, solver_graph = None,
      solver_solve_time = 0, solver_load_time = 0, abort_reason = None,
      solver_failure_description = None,
      solver_resolved_packages =
        [[(''name'', ''A''), (''qualified_name'', ''A-1''), (''resource'', ''/pkgs/A/1'')],
         [(''name'', ''B''), (''qualified_name'', ''B-2''), (''resource'', ''/pkgs/B/2'')]]\<rparr>"

definition handle_field :: "variant_handle \<Rightarrow> string \<Rightarrow> string" where
  "handle_field h k = (case map_of h k of Some x \<Rightarrow> x | None \<Rightarrow> [])"

definition example_env :: environment where
  "example_env =
     \<lparr>resolve_caching = True, prune_failed_graph = False, memcache_enabled = True,
      requirement_str = (\<lambda>q. if req_range q = [] then req_name q
                               else req_name q @ ''-'' @ req_range q),
      repository_uid = (\<lambda>p. ''filesystem@'' @ p),
      get_variant = (\<lambda>h. \<lparr>variant_name = handle_field h ''name'',
                             qualified_name = handle_field h ''qualified_name'',
                             variant_resource = handle_field h ''resource''\<rparr>),
      get_last_release_time =
        (\<lambda>n paths. if n = ''A'' then 100 else if n = ''B'' then 200 else 0),
      get_variant_state_handle = (\<lambda>res. Some 1),
      run_solver = (\<lambda>d. example_solver)\<rparr>"

definition example_resolver :: resolver where
  "example_resolver =
     \<lparr>package_requests = [\<lparr>req_name = ''A'', req_range = []\<rparr>,
                          \<lparr>req_name = ''B'', req_range = ''2+''\<rparr>],
      package_paths = [''/pkgs''], timestamp = 0, building = False, verbosity = False,
      caching = True, max_depth = 0, start_depth = 0, status_r = pending,
      resolved_packages_r = None, failure_description = None, graph_r = None,
      from_cache = False, solve_time = 0, load_time = 0\<rparr>"

text \<open>The entry that a solve of \<open>example_resolver\<close> leaves under its key.\<close>

definition example_entry :: cache_entry where
  "example_entry =
     (solver_to_dict example_solver,
      [(''A'', 100), (''B'', 200)],
      [(''A'', Some 1), (''B'', Some 1)])"

definition example_cache :: memcache where
  "example_cache = [memcache_key example_env example_resolver False \<mapsto> example_entry]"

text \<open>A resolver pinned to the time 250, later than both releases.\<close>

definition timestamped_resolver :: resolver where
  "timestamped_resolver = example_resolver\<lparr>timestamp := 250\<rparr>"

text \<open>A repository that knows no release time for \<^verbatim>\<open>B\<close>.\<close>

definition unknown_release_env :: environment where
  "unknown_release_env =
     example_env\<lparr>get_last_release_time := (\<lambda>n paths. if n = ''A'' then 100 else 0)\<rparr>"

text \<open>
  A solver stopped by its callback, which gave the empty string as the reason,
  and a resolver left in the status \<^verbatim>\<open>failed\<close>.
\<close>

definition aborted_solver :: solver where
  "aborted_solver =
     \<lparr>solver_status = solver_unsolved, is_partial = False, solver_graph = None,
      solver_solve_time = 0, solver_load_time = 0, abort_reason = Some [],
      solver_failure_description = None, solver_resolved_packages = []\<rparr>"

definition aborting_env :: environment where
  "aborting_env = example_env\<lparr>run_solver := (\<lambda>d. aborted_solver)\<rparr>"

definition failed_resolver :: resolver where
  "failed_resolver = example_resolver\<lparr>status_r := failed\<rparr>"

text \<open>
  A solver that fails and is partial below the depth 16 and solves from there on,
  with a resolver that starts at the depth 4 and stops at 32, and one that starts
  at 4 with no bound.
\<close>

definition partial_solver :: solver where
  "partial_solver =
     \<lparr>solver_status = solver_failed, is_partial = True, solver_graph = None,
      solver_solve_time = 0, solver_load_time = 0, abort_reason = None,
      solver_failure_description = Some ''depth reached'', solver_resolved_packages = []\<rparr>"

definition iterative_env :: environment where
  "iterative_env =
     example_env\<lparr>run_solver :=
       (\<lambda>d. case d of None \<Rightarrow> example_solver
                    | Some n \<Rightarrow> if n < 16 then partial_solver else example_solver)\<rparr>"

definition iterative_resolver :: resolver where
  "iterative_resolver = example_resolver\<lparr>start_depth := 4, max_depth := 32\<rparr>"

definition unbounded_resolver :: resolver where
  "unbounded_resolver = example_resolver\<lparr>start_depth := 4\<rparr>"

text \<open>A cache whose entry was stored when \<^verbatim>\<open>A\<close> had last been released at time 90.\<close>

definition stale_cache :: memcache where
  "stale_cache =
     [memcache_key example_env example_resolver False \<mapsto>
        (solver_to_dict example_solver, [(''A'', 90), (''B'', 200)],
         [(''A'', Some 1), (''B'', Some 1)])]"

text \<open>
  \<open>example_resolver\<close> after a successful solve, and the same pinned to the time 150,
  before the last release of \<^verbatim>\<open>B\<close>.
\<close>

definition solved_resolver :: resolver where
  "solved_resolver =
     example_resolver\<lparr>status_r := solved,
       resolved_packages_r :=
         Some (map (get_variant example_env) (solver_resolved_packages example_solver))\<rparr>"

definition pinned_resolver :: resolver where
  "pinned_resolver = solved_resolver\<lparr>timestamp := 150\<rparr>"

text \<open>\<open>example_resolver\<close> with a second search path.\<close>

definition two_path_resolver :: resolver where
  "two_path_resolver = example_resolver\<lparr>package_paths := [''/pkgs'', ''/local'']\<rparr>"


text \<open>\<open>example_resolver\<close> after a solve that the callback stopped with an empty reason.\<close>

definition aborted_resolver :: resolver where
  "aborted_resolver = example_resolver\<lparr>status_r := aborted, failure_description := Some []\<rparr>"

section \<open>Notions used in the statements\<close>

text \<open>The solver reports that it is solved, or that it was not partial.\<close>

definition reports_done :: "solver \<Rightarrow> bool" where
  "reports_done s = (\<not> is_partial s \<or> solver_status s = solver_solved)"

text \<open>A failure description that is there and not empty (true as a Python condition).\<close>

definition populated :: "string option \<Rightarrow> bool" where
  "populated d = (d \<noteq> None \<and> d \<noteq> Some [])"

text \<open>
  Some resolved package was released after the timestamp of the resolver, which is
  not zero: the value of \<^verbatim>\<open>timestamped\<close> on line 377.
\<close>

definition newer_release :: "environment \<Rightarrow> resolver \<Rightarrow> variant list \<Rightarrow> bool" where
  "newer_release env r vs =
     (timestamp r \<noteq> 0 \<and>
      (\<exists>v\<in>set vs. timestamp r < get_last_release_time env (variant_name v) (package_paths r)))"

section \<open>Auxiliary facts\<close>

lemmas ex_defs = example_env_def example_resolver_def example_solver_def example_entry_def
  example_cache_def handle_field_def timestamped_resolver_def unknown_release_env_def
  aborted_solver_def aborting_env_def failed_resolver_def partial_solver_def iterative_env_def
  iterative_resolver_def unbounded_resolver_def

lemmas ex2_defs = stale_cache_def solved_resolver_def pinned_resolver_def two_path_resolver_def aborted_resolver_def

text \<open>The loop of the store step: it gives up at a release time of zero, and otherwise
  records every resolved package.\<close>

lemma store_loop_zero:
  "\<exists>v\<in>set vs. get_last_release_time env (variant_name v) (package_paths r) = 0
   \<Longrightarrow> store_loop env r vs acc = None"
proof (induction vs arbitrary: acc)
  case Nil
  then show ?case by simp
next
  case (Cons v vs)
  obtain since rt st where acc: "acc = (since, rt, st)" by (cases acc)
  show ?case
  proof (cases "get_last_release_time env (variant_name v) (package_paths r) = 0")
    case True
    then show ?thesis by (simp add: acc)
  next
    case False
    with Cons.prems have "\<exists>v\<in>set vs. get_last_release_time env (variant_name v) (package_paths r) = 0"
      by auto
    then show ?thesis using False by (simp add: acc Cons.IH Let_def)
  qed
qed

lemma store_loop_nonzero:
  "\<forall>v\<in>set vs. get_last_release_time env (variant_name v) (package_paths r) \<noteq> 0 \<Longrightarrow>
   \<exists>rt' st'. store_loop env r vs (since, rt, st) =
      Some (since \<or> (timestamp r \<noteq> 0 \<and>
              (\<exists>v\<in>set vs. timestamp r < get_last_release_time env (variant_name v) (package_paths r))),
            rt', st') \<and>
      map_of rt' = (\<lambda>n. if n \<in> variant_name ` set vs
                          then Some (get_last_release_time env n (package_paths r))
                          else map_of rt n) \<and>
      map_of st' = map_of st ++
         map_of (rev (map (\<lambda>v. (variant_name v, get_variant_state_handle env (variant_resource v))) vs))"
proof (induction vs arbitrary: since rt st)
  case Nil
  then show ?case by simp
next
  case (Cons v vs)
  let ?t = "get_last_release_time env (variant_name v) (package_paths r)"
  let ?since1 = "if timestamp r \<noteq> 0 \<and> timestamp r < ?t then True else since"
  let ?rt1 = "AList.update (variant_name v) ?t rt"
  let ?st1 = "AList.update (variant_name v) (get_variant_state_handle env (variant_resource v)) st"
  from Cons.prems have nz: "?t \<noteq> 0"
    and rest: "\<forall>v\<in>set vs. get_last_release_time env (variant_name v) (package_paths r) \<noteq> 0"
    by simp_all
  from Cons.IH [OF rest, of ?since1 ?rt1 ?st1]
  obtain rt' st' where
    loop: "store_loop env r vs (?since1, ?rt1, ?st1) =
      Some (?since1 \<or> (timestamp r \<noteq> 0 \<and>
              (\<exists>v\<in>set vs. timestamp r < get_last_release_time env (variant_name v) (package_paths r))),
            rt', st')"
    and rt': "map_of rt' = (\<lambda>n. if n \<in> variant_name ` set vs
                          then Some (get_last_release_time env n (package_paths r))
                          else map_of ?rt1 n)"
    and st': "map_of st' = map_of ?st1 ++
         map_of (rev (map (\<lambda>v. (variant_name v, get_variant_state_handle env (variant_resource v))) vs))"
    by blast
  have a: "store_loop env r (v # vs) (since, rt, st) = store_loop env r vs (?since1, ?rt1, ?st1)"
    using nz by (simp add: Let_def)
  have b: "(?since1 \<or> (timestamp r \<noteq> 0 \<and>
              (\<exists>v\<in>set vs. timestamp r < get_last_release_time env (variant_name v) (package_paths r))))
        = (since \<or> (timestamp r \<noteq> 0 \<and>
              (\<exists>v\<in>set (v # vs). timestamp r < get_last_release_time env (variant_name v) (package_paths r))))"
    by auto
  have c: "map_of rt' = (\<lambda>n. if n \<in> variant_name ` set (v # vs)
                          then Some (get_last_release_time env n (package_paths r))
                          else map_of rt n)"
    unfolding rt' by (auto simp add: update_conv fun_eq_iff)
  have d: "map_of st' = map_of st ++
         map_of (rev (map (\<lambda>v. (variant_name v, get_variant_state_handle env (variant_resource v))) (v # vs)))"
    unfolding st' by (auto simp add: update_conv fun_eq_iff map_add_def split: option.splits)
  show ?case
    unfolding a loop b using c d by blast
qed

text \<open>The solver loop, unrolled along the depths it visits.\<close>

lemma solve_loop_trace:
  assumes "loop_break r ((next_depth r ^^ k) d) (run_solver env (Some ((next_depth r ^^ k) d)))"
      and "\<And>j. j < k \<Longrightarrow>
             \<not> loop_break r ((next_depth r ^^ j) d) (run_solver env (Some ((next_depth r ^^ j) d)))"
  shows "solve_loop env r d acc =
           Some (run_solver env (Some ((next_depth r ^^ k) d)),
                 acc @ map (\<lambda>j. (next_depth r ^^ j) d) [0..<Suc k])"
  using assms
proof (induction k arbitrary: d acc)
  case 0
  then show ?case by (subst solve_loop.simps) simp
next
  case (Suc k)
  from Suc.prems(2) [of 0] have nb: "\<not> loop_break r d (run_solver env (Some d))" by simp
  have brk: "loop_break r ((next_depth r ^^ k) (next_depth r d))
               (run_solver env (Some ((next_depth r ^^ k) (next_depth r d))))"
    using Suc.prems(1) by (simp add: funpow_swap1)
  have nbrk: "\<not> loop_break r ((next_depth r ^^ j) (next_depth r d))
               (run_solver env (Some ((next_depth r ^^ j) (next_depth r d))))" if "j < k" for j
    using Suc.prems(2) [of "Suc j"] that by (simp add: funpow_swap1)
  have lst: "map (\<lambda>j. (next_depth r ^^ j) d) [0..<Suc (Suc k)] =
             d # map (\<lambda>j. (next_depth r ^^ j) (next_depth r d)) [0..<Suc k]"
    by (simp only: map_upt_Suc [of _ "Suc k"]) (simp add: funpow_swap1)
  have "solve_loop env r d acc = solve_loop env r (next_depth r d) (acc @ [d])"
    using nb by (subst solve_loop.simps) simp
  also have "\<dots> = Some (run_solver env (Some ((next_depth r ^^ k) (next_depth r d))),
                 (acc @ [d]) @ map (\<lambda>j. (next_depth r ^^ j) (next_depth r d)) [0..<Suc k])"
    by (rule Suc.IH [OF brk nbrk])
  finally show ?case
    by (simp only: lst) (simp add: funpow_swap1)
qed

lemma depth_bounded:
  assumes "0 < max_depth r" "d \<le> max_depth r"
  shows "(next_depth r ^^ i) d = min (d * 2 ^ i) (max_depth r)"
proof (induction i)
  case 0
  then show ?case using assms by simp
next
  case (Suc i)
  then show ?case using assms by (simp add: next_depth_def Let_def min_def)
qed

lemma depth_unbounded:
  assumes "max_depth r = 0"
  shows "(next_depth r ^^ i) d = d * 2 ^ i"
  using assms by (induction i) (simp_all add: next_depth_def Let_def)

lemma log_bound:
  fixes s m :: int
  assumes "0 < s" "s \<le> m"
  shows "m \<le> s * 2 ^ nat \<lceil>log 2 (real_of_int m / real_of_int s)\<rceil>"
proof -
  let ?x = "real_of_int m / real_of_int s"
  let ?K = "nat \<lceil>log 2 ?x\<rceil>"
  have x1: "1 \<le> ?x" using assms by simp
  then have "0 \<le> log 2 ?x" by simp
  have le: "log 2 ?x \<le> real ?K" by linarith
  have p: "2 powr real ?K = (2::real) ^ ?K" by (rule powr_realpow) simp
  have "?x = 2 powr log 2 ?x" using x1 by simp
  also have "\<dots> \<le> 2 powr real ?K" using le by (rule powr_mono) simp
  finally have "?x \<le> 2 ^ ?K" by (simp only: p)
  then have "real_of_int m \<le> real_of_int s * 2 ^ ?K"
    using assms by (simp add: field_simps)
  then have "real_of_int m \<le> real_of_int (s * 2 ^ ?K)" by simp
  then show ?thesis by (simp only: of_int_le_iff)
qed

lemma solve_loop_stops:
  assumes "loop_break r ((next_depth r ^^ K) d) (run_solver env (Some ((next_depth r ^^ K) d)))"
  shows "\<exists>k\<le>K. solve_loop env r d [] =
             Some (run_solver env (Some ((next_depth r ^^ k) d)),
                   map (\<lambda>j. (next_depth r ^^ j) d) [0..<Suc k]) \<and>
           loop_break r ((next_depth r ^^ k) d) (run_solver env (Some ((next_depth r ^^ k) d))) \<and>
           (\<forall>j<k. \<not> loop_break r ((next_depth r ^^ j) d)
                      (run_solver env (Some ((next_depth r ^^ j) d))))"
proof -
  let ?P = "\<lambda>k. loop_break r ((next_depth r ^^ k) d) (run_solver env (Some ((next_depth r ^^ k) d)))"
  define k where "k = (LEAST k. ?P k)"
  have pk: "?P k" unfolding k_def using assms by (rule LeastI)
  have le: "k \<le> K" unfolding k_def using assms by (rule Least_le)
  have less: "\<not> ?P j" if "j < k" for j
    using that unfolding k_def by (rule not_less_Least)
  have "solve_loop env r d [] =
          Some (run_solver env (Some ((next_depth r ^^ k) d)),
                [] @ map (\<lambda>j. (next_depth r ^^ j) d) [0..<Suc k])"
    using pk less by (rule solve_loop_trace)
  with pk le less show ?thesis by auto
qed

text \<open>The entry of \<open>example_cache\<close> as seen by \<open>timestamped_resolver\<close>.\<close>

lemma ts_key: "memcache_key example_env timestamped_resolver False = memcache_key example_env example_resolver False"
  by (simp add: memcache_key_def ex_defs)

lemma ts_pc: "packages_changed example_env example_entry = Inr False"
  by (simp add: packages_changed_def ex_defs solver_to_dict_def dict_get_def)

lemma ts_rs: "\<not> releases_since_solve example_env timestamped_resolver example_entry"
  by (simp add: releases_since_solve_def ex_defs)

lemma ts_te: "\<not> timestamp_is_earlier timestamped_resolver example_entry"
  by (simp add: timestamp_is_earlier_def ex_defs)

text \<open>The entry of \<open>stale_cache\<close>, and that of \<open>example_cache\<close> without a timestamp.\<close>

lemma stale_pc: "packages_changed example_env (the (stale_cache (memcache_key example_env example_resolver False))) = Inr False"
  by (simp add: stale_cache_def packages_changed_def ex_defs solver_to_dict_def dict_get_def)

lemma stale_rs: "releases_since_solve example_env example_resolver (the (stale_cache (memcache_key example_env example_resolver False)))"
  by (simp add: stale_cache_def releases_since_solve_def ex_defs)

lemma ex_rs: "\<not> releases_since_solve example_env example_resolver example_entry"
  by (simp add: releases_since_solve_def ex_defs)

text \<open>What \<^verbatim>\<open>_set_result\<close> and \<^verbatim>\<open>_solver_to_dict\<close> leave when the status is not \<^verbatim>\<open>solved\<close>.\<close>

lemma set_result_unsolved:
  assumes "set_result env r0 sd = Inr r1" "status_r r1 \<noteq> solved"
  shows "resolved_packages_r r1 = None \<and> status_r r1 = sd_status sd \<and>
         failure_description r1 = sd_failure_description sd \<and> from_cache r1 = from_cache r0"
  using assms by (auto simp add: set_result_def Let_def split: if_splits option.splits)

lemma solver_to_dict_unsolved:
  assumes "sd_status (solver_to_dict s) \<noteq> solved"
  shows "solver_status s = solver_unsolved \<and> sd_status (solver_to_dict s) = aborted \<and>
           sd_failure_description (solver_to_dict s) = abort_reason s \<or>
         solver_status s = solver_failed \<and> sd_status (solver_to_dict s) = failed \<and>
           sd_failure_description (solver_to_dict s) = solver_failure_description s"
  using assms by (cases "solver_status s") (simp_all add: solver_to_dict_def)

section \<open>Cache lookup: claims\<close>

text \<open>
  Claim C1. For a resolver with a nonzero timestamp whose non-timestamped entry is
  there, unchanged, without later releases and with no release after the timestamp,
  the claim expects the entry's \<^verbatim>\<open>solver_dict\<close> as a hit. The code reaches
  \<^verbatim>\<open>return _hit()\<close> on line 238, a call without the argument of \<^verbatim>\<open>_hit(data)\<close>, and
  raises \<^verbatim>\<open>TypeError\<close>; the cache is left as it was.
\<close>

theorem lookup_reusable_entry_raises:
  assumes "resolve_caching env" "caching r" "memcache_enabled env"
    and "timestamp r \<noteq> 0"
    and "cache (memcache_key env r False) = Some E0"
    and "packages_changed env E0 = Inr False"
    and "\<not> releases_since_solve env r E0"
    and "\<not> timestamp_is_earlier r E0"
  shows "get_cached_solve env r cache = (Inl TypeError, cache)"
  using assms by (simp add: get_cached_solve_def Let_def)

theorem lookup_reusable_entry_raises_witness:
  "get_cached_solve example_env timestamped_resolver example_cache = (Inl TypeError, example_cache)"
proof -
  have 1: "resolve_caching example_env" "caching timestamped_resolver" "memcache_enabled example_env"
    "timestamp timestamped_resolver \<noteq> 0"
    by (simp_all add: ex_defs)
  have 2: "example_cache (memcache_key example_env timestamped_resolver False) = Some example_entry"
    by (simp add: ts_key example_cache_def)
  show ?thesis
    using lookup_reusable_entry_raises
            [of example_env timestamped_resolver example_cache example_entry]
          1 2 ts_pc ts_rs ts_te
    by blast
qed

text \<open>
  Claim C3. With timestamp 0 and caching enabled, the lookup returns a
  \<^verbatim>\<open>solver_dict\<close> exactly when the non-timestamped entry exists, its packages have
  not changed and no release happened since; it is then the stored one and the
  cache is untouched. When the packages have changed, or they have not and a
  release happened since, the entry is deleted and the result is a miss.
\<close>

theorem lookup_without_timestamp:
  assumes "resolve_caching env" "caching r" "memcache_enabled env" "timestamp r = 0"
  shows "(get_cached_solve env r cache = (Inr (Some sd), cache')
           \<longleftrightarrow> (\<exists>data. cache (memcache_key env r False) = Some data \<and>
                  packages_changed env data = Inr False \<and>
                  \<not> releases_since_solve env r data \<and>
                  sd = fst data \<and> cache' = cache)) \<and>
         (\<forall>data. cache (memcache_key env r False) = Some data \<and>
             (packages_changed env data = Inr True \<or>
              packages_changed env data = Inr False \<and> releases_since_solve env r data)
           \<longrightarrow> get_cached_solve env r cache =
                 (Inr None, cache(memcache_key env r False := None)))"
  using assms
  by (auto simp add: get_cached_solve_def Let_def hit_def split: option.splits sum.splits bool.splits prod.splits)

theorem lookup_without_timestamp_witness:
  "resolve_caching example_env \<and> caching example_resolver \<and> memcache_enabled example_env \<and>
   timestamp example_resolver = 0 \<and>
   get_cached_solve example_env example_resolver example_cache
     = (Inr (Some (fst example_entry)), example_cache) \<and>
   get_cached_solve example_env example_resolver stale_cache
     = (Inr None, stale_cache(memcache_key example_env example_resolver False := None))"
proof -
  have h: "resolve_caching example_env" "caching example_resolver" "memcache_enabled example_env"
    "timestamp example_resolver = 0"
    by (simp_all add: ex_defs)
  have e: "example_cache (memcache_key example_env example_resolver False) = Some example_entry"
    by (simp add: example_cache_def)
  have s: "stale_cache (memcache_key example_env example_resolver False)
             = Some (the (stale_cache (memcache_key example_env example_resolver False)))"
    by (simp add: stale_cache_def)
  from lookup_without_timestamp [OF h, of example_cache "fst example_entry" example_cache]
    e ts_pc ex_rs
  have 1: "get_cached_solve example_env example_resolver example_cache
     = (Inr (Some (fst example_entry)), example_cache)"
    by blast
  from lookup_without_timestamp [OF h, of stale_cache] s stale_pc stale_rs
  have 2: "get_cached_solve example_env example_resolver stale_cache
     = (Inr None, stale_cache(memcache_key example_env example_resolver False := None))"
    by blast
  from h 1 2 show ?thesis by blast
qed

section \<open>Cache store: claims\<close>

text \<open>
  Claim C5. When the status of the resolver is not \<^verbatim>\<open>solved\<close>, the store step leaves
  the cache as it is.
\<close>

theorem store_not_solved:
  "status_r r \<noteq> solved \<Longrightarrow> set_cached_solve env r solver_dict cache = Inr cache"
  by (simp add: set_cached_solve_def)

theorem store_not_solved_witness:
  "status_r failed_resolver \<noteq> solved \<and>
   set_cached_solve example_env failed_resolver (solver_to_dict partial_solver) example_cache
     = Inr example_cache"
  using store_not_solved [of failed_resolver example_env "solver_to_dict partial_solver" example_cache]
  by (simp add: failed_resolver_def example_resolver_def)

text \<open>
  Claim C2. When the store step runs (caching enabled, status \<^verbatim>\<open>solved\<close>) and every
  resolved package has a nonzero last release time, it writes the triple
  \<^verbatim>\<open>(solver_dict, release_times, variant_states)\<close> under one key: the timestamped key,
  which then differs from the non-timestamped one, when the timestamp is nonzero and
  some resolved package was last released after it, and the non-timestamped key
  otherwise. The release times are the current ones of the resolved names, the
  variant states the current ones of the resolved variants.
\<close>

theorem store_key_choice:
  assumes "resolve_caching env" "caching r" "memcache_enabled env"
    and "status_r r = solved" and "resolved_packages_r r = Some vs"
    and "\<forall>v\<in>set vs. get_last_release_time env (variant_name v) (package_paths r) \<noteq> 0"
  shows "\<exists>rt st.
           set_cached_solve env r sd cache =
             Inr (cache(memcache_key env r (newer_release env r vs) \<mapsto> (sd, rt, st))) \<and>
           map_of rt = (\<lambda>n. if n \<in> variant_name ` set vs
                               then Some (get_last_release_time env n (package_paths r))
                               else None) \<and>
           map_of st =
             map_of (rev (map (\<lambda>v. (variant_name v,
                                       get_variant_state_handle env (variant_resource v))) vs)) \<and>
           (if newer_release env r vs
            then memcache_key env r (newer_release env r vs) = memcache_key env r True \<and>
                 memcache_key env r True \<noteq> memcache_key env r False
            else memcache_key env r (newer_release env r vs) = memcache_key env r False)"
proof -
  from store_loop_nonzero [OF assms(6), of False "[]" "[]"]
  have "\<exists>rt st. store_loop env r vs (False, [], []) = Some (newer_release env r vs, rt, st) \<and>
     map_of rt = (\<lambda>n. if n \<in> variant_name ` set vs
                               then Some (get_last_release_time env n (package_paths r))
                               else None) \<and>
     map_of st =
             map_of (rev (map (\<lambda>v. (variant_name v,
                                       get_variant_state_handle env (variant_resource v))) vs))"
    by (simp add: newer_release_def cong: if_cong)
  then obtain rt st where
    loop: "store_loop env r vs (False, [], []) = Some (newer_release env r vs, rt, st)"
    and rt: "map_of rt = (\<lambda>n. if n \<in> variant_name ` set vs
                               then Some (get_last_release_time env n (package_paths r))
                               else None)"
    and st: "map_of st =
             map_of (rev (map (\<lambda>v. (variant_name v,
                                       get_variant_state_handle env (variant_resource v))) vs))"
    by blast
  have w: "set_cached_solve env r sd cache =
             Inr (cache(memcache_key env r (newer_release env r vs) \<mapsto> (sd, rt, st)))"
    using assms(1-5) loop by (auto simp add: set_cached_solve_def Let_def newer_release_def)
  have k: "if newer_release env r vs
            then memcache_key env r (newer_release env r vs) = memcache_key env r True \<and>
                 memcache_key env r True \<noteq> memcache_key env r False
            else memcache_key env r (newer_release env r vs) = memcache_key env r False"
    by (simp add: memcache_key_def newer_release_def)
  from w rt st k show ?thesis by blast
qed

theorem store_key_choice_witness:
  "resolve_caching example_env \<and> caching pinned_resolver \<and> memcache_enabled example_env \<and>
   status_r pinned_resolver = solved \<and>
   newer_release example_env pinned_resolver
     (map (get_variant example_env) (solver_resolved_packages example_solver)) \<and>
   (\<exists>rt st.
      set_cached_solve example_env pinned_resolver (solver_to_dict example_solver) Map.empty =
        Inr [memcache_key example_env pinned_resolver True
               \<mapsto> (solver_to_dict example_solver, rt, st)] \<and>
      map_of rt ''A'' = Some 100 \<and> map_of rt ''B'' = Some 200)"
proof -
  let ?vs = "map (get_variant example_env) (solver_resolved_packages example_solver)"
  have h: "resolve_caching example_env" "caching pinned_resolver" "memcache_enabled example_env"
    "status_r pinned_resolver = solved" "resolved_packages_r pinned_resolver = Some ?vs"
    by (simp_all add: ex_defs ex2_defs)
  have nz: "\<forall>v\<in>set ?vs.
              get_last_release_time example_env (variant_name v) (package_paths pinned_resolver) \<noteq> 0"
    by (simp add: ex_defs ex2_defs)
  have nr: "newer_release example_env pinned_resolver ?vs"
    by (simp add: newer_release_def ex_defs ex2_defs)
  have names: "variant_name ` set ?vs = {''A'', ''B''}"
    by (auto simp add: ex_defs)
  have times: "get_last_release_time example_env ''A'' (package_paths pinned_resolver) = 100"
    "get_last_release_time example_env ''B'' (package_paths pinned_resolver) = 200"
    by (simp_all add: ex_defs)
  from store_key_choice [OF h nz, of "solver_to_dict example_solver" Map.empty]
  obtain rt st where
    w: "set_cached_solve example_env pinned_resolver (solver_to_dict example_solver) Map.empty =
          Inr [memcache_key example_env pinned_resolver (newer_release example_env pinned_resolver ?vs)
                 \<mapsto> (solver_to_dict example_solver, rt, st)]"
    and rt: "map_of rt = (\<lambda>n. if n \<in> variant_name ` set ?vs
                then Some (get_last_release_time example_env n (package_paths pinned_resolver))
                else None)"
    by blast
  have "map_of rt ''A'' = Some 100" "map_of rt ''B'' = Some 200"
    unfolding rt names using times by simp_all
  with w nr h show ?thesis by auto
qed

text \<open>
  Claim C4. When the lookup misses, the solver ends solved and the repository reports
  the last release time 0 for the name of some resolved variant, \<^verbatim>\<open>solve\<close> returns
  the resolver with the status \<^verbatim>\<open>solved\<close> and the resolved packages of the solver, and
  the cache is the one the lookup left: the store step wrote nothing.
\<close>

theorem unknown_release_time_skips_store:
  assumes "get_cached_solve env r cache = (Inr None, cache1)"
    and "solve_internal env (r\<lparr>from_cache := False\<rparr>) = Some (s, depths)"
    and "solver_status s = solver_solved"
    and "\<exists>h\<in>set (solver_resolved_packages s).
           get_last_release_time env (variant_name (get_variant env h)) (package_paths r) = 0"
  shows "\<exists>r1. solve env r cache = Some (Inr r1, cache1) \<and>
              status_r r1 = solved \<and>
              resolved_packages_r r1 = Some (map (get_variant env) (solver_resolved_packages s)) \<and>
              set_cached_solve env r1 (solver_to_dict s) cache1 = Inr cache1"
proof -
  let ?sd = "solver_to_dict s"
  let ?vs = "map (get_variant env) (solver_resolved_packages s)"
  let ?r1 = "r\<lparr>from_cache := False, status_r := solved, graph_r := solver_graph s,
                solve_time := solver_solve_time s, load_time := solver_load_time s,
                failure_description := None, resolved_packages_r := Some ?vs\<rparr>"
  have sd: "sd_status ?sd = solved" "sd_variant_handles ?sd = Some (solver_resolved_packages s)"
    "sd_graph ?sd = solver_graph s" "sd_solve_time ?sd = solver_solve_time s"
    "sd_load_time ?sd = solver_load_time s" "sd_failure_description ?sd = None"
    using assms(3) by (simp_all add: solver_to_dict_def)
  have res: "set_result env (r\<lparr>from_cache := False\<rparr>) ?sd = Inr ?r1"
    by (simp add: set_result_def sd)
  have z: "\<exists>v\<in>set ?vs. get_last_release_time env (variant_name v) (package_paths ?r1) = 0"
    using assms(4) by simp
  have loop: "store_loop env ?r1 ?vs (False, [], []) = None"
    using z by (rule store_loop_zero)
  have store: "set_cached_solve env ?r1 ?sd cache1 = Inr cache1"
    using loop by (simp add: set_cached_solve_def)
  have "solve env r cache = Some (Inr ?r1, cache1)"
    using assms(1,2) res store by (simp add: solve_def)
  with store show ?thesis by (intro exI [of _ ?r1]) simp
qed

theorem unknown_release_time_skips_store_witness:
  "get_cached_solve unknown_release_env example_resolver Map.empty = (Inr None, Map.empty) \<and>
   solve_internal unknown_release_env (example_resolver\<lparr>from_cache := False\<rparr>)
     = Some (example_solver, []) \<and>
   solver_status example_solver = solver_solved \<and>
   get_last_release_time unknown_release_env ''B'' (package_paths example_resolver) = 0 \<and>
   (\<exists>r1. solve unknown_release_env example_resolver Map.empty = Some (Inr r1, Map.empty) \<and>
         status_r r1 = solved)"
proof -
  have a: "get_cached_solve unknown_release_env example_resolver Map.empty = (Inr None, Map.empty)"
    by (simp add: get_cached_solve_def Let_def ex_defs)
  have b: "solve_internal unknown_release_env (example_resolver\<lparr>from_cache := False\<rparr>)
     = Some (example_solver, [])"
    by (simp add: solve_internal_def unknown_release_env_def example_env_def example_resolver_def)
  have c: "solver_status example_solver = solver_solved"
    by (simp add: example_solver_def)
  have t: "get_last_release_time unknown_release_env ''B'' (package_paths example_resolver) = 0"
    by (simp add: ex_defs)
  have d: "\<exists>h\<in>set (solver_resolved_packages example_solver).
           get_last_release_time unknown_release_env
             (variant_name (get_variant unknown_release_env h)) (package_paths example_resolver) = 0"
    by (simp add: ex_defs)
  from unknown_release_time_skips_store [OF a b c d] a b c t show ?thesis by blast
qed

section \<open>The solver driver: claims\<close>

text \<open>
  Claim C6. With \<open>0 < start_depth\<close>: when \<open>0 < max_depth\<close> and
  \<open>start_depth \<le> max_depth\<close>, the loop returns after at most
  \<open>\<lceil>log\<^sub>2 (max_depth / start_depth)\<rceil> + 1\<close> solver invocations, every invocation but
  the last found the solver partial and unsolved, and the loop is over by the first
  depth at which the solver reports solved or not partial. When \<open>max_depth = 0\<close> and
  the solver reports solved or not partial at some depth \<open>start_depth * 2 ^ k\<close>, the
  loop returns by then, with a solver that reports so.
\<close>

theorem iterative_solve_terminates:
  "0 < start_depth r \<Longrightarrow>
   (0 < max_depth r \<and> start_depth r \<le> max_depth r \<longrightarrow>
      (\<exists>s depths. solve_internal env r = Some (s, depths) \<and>
         int (length depths)
           \<le> \<lceil>log 2 (real_of_int (max_depth r) / real_of_int (start_depth r))\<rceil> + 1 \<and>
         depths \<noteq> [] \<and> s = run_solver env (Some (last depths)) \<and>
         (\<forall>d\<in>set (butlast depths). \<not> reports_done (run_solver env (Some d))) \<and>
         (\<forall>k. reports_done (run_solver env (Some (min (start_depth r * 2 ^ k) (max_depth r))))
               \<longrightarrow> length depths \<le> k + 1))) \<and>
   (max_depth r = 0 \<longrightarrow>
      (\<forall>k. reports_done (run_solver env (Some (start_depth r * 2 ^ k))) \<longrightarrow>
         (\<exists>s depths. solve_internal env r = Some (s, depths) \<and>
            length depths \<le> k + 1 \<and>
            depths \<noteq> [] \<and> s = run_solver env (Some (last depths)) \<and> reports_done s \<and>
            (\<forall>d\<in>set (butlast depths). \<not> reports_done (run_solver env (Some d))))))"
proof (intro conjI impI allI)
  assume pos: "0 < start_depth r" and bnd: "0 < max_depth r \<and> start_depth r \<le> max_depth r"
  let ?s = "start_depth r" and ?m = "max_depth r"
  let ?g = "\<lambda>j. (next_depth r ^^ j) ?s"
  let ?K = "nat \<lceil>log 2 (real_of_int ?m / real_of_int ?s)\<rceil>"
  have g: "?g j = min (?s * 2 ^ j) ?m" for j
    using bnd by (simp add: depth_bounded)
  have "?m \<le> ?s * 2 ^ ?K" using pos bnd by (simp add: log_bound)
  then have "?g ?K = ?m" by (simp only: g)
  then have "loop_break r (?g ?K) (run_solver env (Some (?g ?K)))"
    using bnd by (simp add: loop_break_def)
  from solve_loop_stops [OF this]
  obtain k where kK: "k \<le> ?K"
    and loop: "solve_loop env r ?s [] = Some (run_solver env (Some (?g k)), map ?g [0..<Suc k])"
    and before: "\<And>j. j < k \<Longrightarrow> \<not> loop_break r (?g j) (run_solver env (Some (?g j)))"
    by blast
  let ?depths = "map ?g [0..<Suc k]"
  have si: "solve_internal env r = Some (run_solver env (Some (?g k)), ?depths)"
    using pos loop by (simp add: solve_internal_def)
  have "1 \<le> real_of_int ?m / real_of_int ?s" using pos bnd by simp
  then have "0 \<le> log 2 (real_of_int ?m / real_of_int ?s)" by simp
  then have nonneg: "0 \<le> \<lceil>log 2 (real_of_int ?m / real_of_int ?s)\<rceil>"
    by linarith
  have kint: "int k \<le> int ?K" using kK by (simp only: of_nat_le_iff)
  have Kint: "int ?K = \<lceil>log 2 (real_of_int ?m / real_of_int ?s)\<rceil>"
    using nonneg by (rule nat_0_le)
  have "length ?depths = Suc k" by simp
  then have len: "int (length ?depths) \<le> \<lceil>log 2 (real_of_int ?m / real_of_int ?s)\<rceil> + 1"
    using kint Kint by linarith
  have lst: "last ?depths = ?g k" by simp
  have bl: "butlast ?depths = map ?g [0..<k]" by (simp add: butlast_append)
  have early: "\<forall>d\<in>set (butlast ?depths). \<not> reports_done (run_solver env (Some d))"
    unfolding bl using before by (auto simp add: loop_break_def reports_done_def)
  have first: "length ?depths \<le> k' + 1"
    if "reports_done (run_solver env (Some (min (?s * 2 ^ k') ?m)))" for k'
  proof (rule ccontr)
    assume "\<not> length ?depths \<le> k' + 1"
    then have "k' < k" by simp
    from before [OF this] that show False
      by (simp add: loop_break_def reports_done_def g)
  qed
  show "\<exists>s depths. solve_internal env r = Some (s, depths) \<and>
         int (length depths)
           \<le> \<lceil>log 2 (real_of_int (max_depth r) / real_of_int (start_depth r))\<rceil> + 1 \<and>
         depths \<noteq> [] \<and> s = run_solver env (Some (last depths)) \<and>
         (\<forall>d\<in>set (butlast depths). \<not> reports_done (run_solver env (Some d))) \<and>
         (\<forall>k. reports_done (run_solver env (Some (min (start_depth r * 2 ^ k) (max_depth r))))
               \<longrightarrow> length depths \<le> k + 1)"
    using si len lst early first by (intro exI [of _ "run_solver env (Some (?g k))"] exI [of _ ?depths]) simp
next
  fix K
  assume pos: "0 < start_depth r" and unb: "max_depth r = 0"
    and fin0: "reports_done (run_solver env (Some (start_depth r * 2 ^ K)))"
  let ?s = "start_depth r"
  let ?g = "\<lambda>j. (next_depth r ^^ j) ?s"
  have g: "?g j = ?s * 2 ^ j" for j
    using unb by (simp add: depth_unbounded)
  have lb: "loop_break r d s = reports_done s" for d s
    using unb by (simp add: loop_break_def reports_done_def)
  have "loop_break r (?g K) (run_solver env (Some (?g K)))"
    using fin0 by (simp add: lb g)
  from solve_loop_stops [OF this]
  obtain k where kK: "k \<le> K"
    and loop: "solve_loop env r ?s [] = Some (run_solver env (Some (?g k)), map ?g [0..<Suc k])"
    and at: "loop_break r (?g k) (run_solver env (Some (?g k)))"
    and before: "\<And>j. j < k \<Longrightarrow> \<not> loop_break r (?g j) (run_solver env (Some (?g j)))"
    by blast
  let ?depths = "map ?g [0..<Suc k]"
  have si: "solve_internal env r = Some (run_solver env (Some (?g k)), ?depths)"
    using pos loop by (simp add: solve_internal_def)
  have len: "length ?depths \<le> K + 1" using kK by simp
  have lst: "last ?depths = ?g k" by simp
  have bl: "butlast ?depths = map ?g [0..<k]" by (simp add: butlast_append)
  have early: "\<forall>d\<in>set (butlast ?depths). \<not> reports_done (run_solver env (Some d))"
    unfolding bl using before by (auto simp add: lb)
  have fin: "reports_done (run_solver env (Some (?g k)))" using at by (simp add: lb)
  show "\<exists>s depths. solve_internal env r = Some (s, depths) \<and>
            length depths \<le> K + 1 \<and>
            depths \<noteq> [] \<and> s = run_solver env (Some (last depths)) \<and> reports_done s \<and>
            (\<forall>d\<in>set (butlast depths). \<not> reports_done (run_solver env (Some d)))"
    using si len lst early fin by (intro exI [of _ "run_solver env (Some (?g k))"] exI [of _ ?depths]) simp
qed

theorem iterative_solve_terminates_witness:
  "0 < start_depth iterative_resolver \<and> 0 < max_depth iterative_resolver \<and>
   start_depth iterative_resolver \<le> max_depth iterative_resolver \<and>
   (\<exists>s depths. solve_internal iterative_env iterative_resolver = Some (s, depths) \<and>
      int (length depths) \<le> \<lceil>log 2 (real_of_int (max_depth iterative_resolver)
                                      / real_of_int (start_depth iterative_resolver))\<rceil> + 1 \<and>
      s = run_solver iterative_env (Some (last depths))) \<and>
   0 < start_depth unbounded_resolver \<and> max_depth unbounded_resolver = 0 \<and>
   reports_done (run_solver iterative_env (Some (start_depth unbounded_resolver * 2 ^ 2))) \<and>
   (\<exists>s depths. solve_internal iterative_env unbounded_resolver = Some (s, depths) \<and>
      length depths \<le> 2 + 1 \<and> reports_done s)"
proof -
  have a: "0 < start_depth iterative_resolver"
    and b: "0 < max_depth iterative_resolver \<and> start_depth iterative_resolver \<le> max_depth iterative_resolver"
    by (simp_all add: ex_defs)
  have c: "0 < start_depth unbounded_resolver" and d: "max_depth unbounded_resolver = 0"
    by (simp_all add: ex_defs)
  have e: "reports_done (run_solver iterative_env (Some (start_depth unbounded_resolver * 2 ^ 2)))"
    by (simp add: ex_defs reports_done_def)
  from iterative_solve_terminates [OF a, of iterative_env] b
  have 1: "\<exists>s depths. solve_internal iterative_env iterative_resolver = Some (s, depths) \<and>
      int (length depths) \<le> \<lceil>log 2 (real_of_int (max_depth iterative_resolver)
                                      / real_of_int (start_depth iterative_resolver))\<rceil> + 1 \<and>
      s = run_solver iterative_env (Some (last depths))"
    by blast
  from iterative_solve_terminates [OF c, of iterative_env] d e
  have 2: "\<exists>s depths. solve_internal iterative_env unbounded_resolver = Some (s, depths) \<and>
      length depths \<le> 2 + 1 \<and> reports_done s"
    by blast
  from a b c d e 1 2 show ?thesis by blast
qed

text \<open>The depths visited by \<open>iterative_resolver\<close>: 4, 8 and 16.\<close>

lemma scenario6: "solve_internal iterative_env iterative_resolver = Some (example_solver, [4, 8, 16])"
  by (simp add: solve_internal_def iterative_resolver_def example_resolver_def iterative_env_def
      solve_loop.simps [of _ _ 4] solve_loop.simps [of _ _ 8] solve_loop.simps [of _ _ 16]
      loop_break_def next_depth_def partial_solver_def example_solver_def example_env_def)

section \<open>Construction and keys: claims\<close>

text \<open>
  Claim C7. Construction raises (the \<^verbatim>\<open>assert\<close> fails) exactly when both depths are
  nonzero and \<open>max_depth < start_depth\<close>; it succeeds, with the status
  \<^verbatim>\<open>pending\<close>, exactly when one of them is zero or \<open>start_depth \<le> max_depth\<close>.
\<close>

theorem init_depths:
  "(Resolver_init requests paths ts bld verb maxd startd cach = Inl AssertionError
      \<longleftrightarrow> maxd \<noteq> 0 \<and> startd \<noteq> 0 \<and> maxd < startd) \<and>
   ((\<exists>r. Resolver_init requests paths ts bld verb maxd startd cach = Inr r \<and>
         status_r r = pending \<and> max_depth r = maxd \<and> start_depth r = startd)
      \<longleftrightarrow> maxd = 0 \<or> startd = 0 \<or> startd \<le> maxd)"
  by (auto simp add: Resolver_init_def)

text \<open>
  Claim C10. With timestamp 0 the timestamped key and the non-timestamped key
  are the same tuple.
\<close>

theorem key_timestamp_zero:
  "timestamp r = 0 \<Longrightarrow> memcache_key env r True = memcache_key env r False"
  by (simp add: memcache_key_def)

theorem key_timestamp_zero_witness:
  "timestamp example_resolver = 0 \<and>
   memcache_key example_env example_resolver True = memcache_key example_env example_resolver False"
  using key_timestamp_zero [of example_resolver example_env]
  by (simp add: example_resolver_def)

section \<open>Results: claims\<close>

text \<open>
  Claim C8, as stated, fails: a solve that the callback stops with the empty string
  as its reason ends with the status \<^verbatim>\<open>aborted\<close>, a failure description that is
  empty, and \<^verbatim>\<open>resolved_packages_\<close> equal to \<^verbatim>\<open>None\<close> rather than to an empty list.
\<close>

theorem unsolved_result_counterexample:
  "solve aborting_env example_resolver Map.empty = Some (Inr aborted_resolver, Map.empty) \<and>
   status_r aborted_resolver = aborted \<and>
   \<not> populated (failure_description aborted_resolver) \<and>
   resolved_packages_r aborted_resolver \<noteq> Some []"
  by (simp add: solve_def get_cached_solve_def solve_internal_def solver_to_dict_def
      set_result_def set_cached_solve_def memcache_key_def populated_def Let_def
      ex_defs ex2_defs)

text \<open>
  Claim C8, amended. After \<^verbatim>\<open>solve\<close> returns with a status other than \<^verbatim>\<open>solved\<close>,
  \<^verbatim>\<open>resolved_packages_\<close> is \<^verbatim>\<open>None\<close>; and when the result did not come from the cache,
  the status is \<^verbatim>\<open>aborted\<close> with the solver's abort reason as failure description, or
  \<^verbatim>\<open>failed\<close> with the solver's failure description.
\<close>

theorem unsolved_result:
  assumes "solve env r cache = Some (Inr r1, cache1)" and "status_r r1 \<noteq> solved"
  shows "resolved_packages_r r1 = None \<and>
         (\<not> from_cache r1 \<longrightarrow>
            (\<exists>s depths. solve_internal env (r\<lparr>from_cache := False\<rparr>) = Some (s, depths) \<and>
               (solver_status s = solver_unsolved \<and> status_r r1 = aborted \<and>
                  failure_description r1 = abort_reason s \<or>
                solver_status s = solver_failed \<and> status_r r1 = failed \<and>
                  failure_description r1 = solver_failure_description s)))"
proof (cases "get_cached_solve env r cache")
  case (Pair res c1)
  show ?thesis
  proof (cases res)
    case (Inl e)
    with Pair assms(1) show ?thesis by (simp add: solve_def)
  next
    case (Inr hit_or_miss)
    show ?thesis
    proof (cases hit_or_miss)
      case (Some sd)
      with Pair Inr assms(1) have sr: "set_result env (r\<lparr>from_cache := True\<rparr>) sd = Inr r1"
        by (simp add: solve_def)
      from set_result_unsolved [OF sr assms(2)] show ?thesis by simp
    next
      case None
      with Pair Inr assms(1) obtain s depths where
        si: "solve_internal env (r\<lparr>from_cache := False\<rparr>) = Some (s, depths)"
        by (auto simp add: solve_def split: option.splits)
      with None Pair Inr assms(1) have
        sr: "set_result env (r\<lparr>from_cache := False\<rparr>) (solver_to_dict s) = Inr r1"
        by (auto simp add: solve_def Let_def split: sum.splits)
      note u = set_result_unsolved [OF sr assms(2)]
      from u assms(2) have "sd_status (solver_to_dict s) \<noteq> solved" by simp
      from solver_to_dict_unsolved [OF this] u si show ?thesis by auto
    qed
  qed
qed

theorem unsolved_result_witness:
  "solve aborting_env example_resolver Map.empty = Some (Inr aborted_resolver, Map.empty) \<and>
   status_r aborted_resolver \<noteq> solved \<and> \<not> from_cache aborted_resolver \<and>
   resolved_packages_r aborted_resolver = None \<and>
   (\<exists>s depths. solve_internal aborting_env (example_resolver\<lparr>from_cache := False\<rparr>)
        = Some (s, depths) \<and>
      (solver_status s = solver_unsolved \<and> status_r aborted_resolver = aborted \<and>
         failure_description aborted_resolver = abort_reason s \<or>
       solver_status s = solver_failed \<and> status_r aborted_resolver = failed \<and>
         failure_description aborted_resolver = solver_failure_description s))"
proof -
  have a: "solve aborting_env example_resolver Map.empty = Some (Inr aborted_resolver, Map.empty)"
    by (simp add: solve_def get_cached_solve_def solve_internal_def solver_to_dict_def
      set_result_def set_cached_solve_def memcache_key_def Let_def ex_defs ex2_defs)
  have b: "status_r aborted_resolver \<noteq> solved" and c: "\<not> from_cache aborted_resolver"
    by (simp_all add: ex_defs ex2_defs)
  from unsolved_result [OF a b] a b c show ?thesis by blast
qed

section \<open>Order of the inputs: claims\<close>

text \<open>
  The key depends on the two lists only through the sequence of rendered request
  strings and the sequence of repository identities.
\<close>

lemma key_order:
  "memcache_key env (r\<lparr>package_requests := requests', package_paths := paths'\<rparr>) timestamped
     = memcache_key env r timestamped
   \<longleftrightarrow> map (requirement_str env) requests' = map (requirement_str env) (package_requests r) \<and>
       map (repository_uid env) paths' = map (repository_uid env) (package_paths r)"
  by (simp add: memcache_key_def)




end
